theory Spec2Isabelle
  imports Main "HOL-Library.Sublist"
begin

section \<open>The user table (user.py)\<close>

text \<open>
  A row of the \<^verbatim>\<open>users\<close> table. The column \<^verbatim>\<open>id\<close> is the integer primary key;
  \<^verbatim>\<open>session_id\<close> and \<^verbatim>\<open>reset_token\<close> are nullable, so they are options
  (Python's \<^verbatim>\<open>None\<close> is \<open>None\<close>). A Python \<^verbatim>\<open>str\<close> is represented by its UTF-8
  bytes, so \<^verbatim>\<open>password.encode('utf-8')\<close> is the identity on the representation.
\<close>

record user =
  user_id :: nat
  email :: string
  hashed_password :: string
  session_id :: "string option"
  reset_token :: "string option"

text \<open>
  The exceptions that cross the functions modelled here. \<^verbatim>\<open>raise ValueError\<close> without
  argument carries the empty message. The specification calls the \<^verbatim>\<open>ValueError\<close> of
  \<^verbatim>\<open>register_user\<close> \<^verbatim>\<open>UserAlreadyExists\<close>, that of \<^verbatim>\<open>update_password\<close>
  \<^verbatim>\<open>InvalidResetToken\<close> and that of \<^verbatim>\<open>get_reset_password_token\<close> \<^verbatim>\<open>UserNotFound\<close>.
\<close>

datatype error = NoResultFound | ValueError string | DuplicateEmail

section \<open>The store (db.py, not among the sources)\<close>

text \<open>The table is the list of its rows in insertion order.\<close>

type_synonym DB = "user list"

text \<open>The keyword arguments with which auth.py calls \<^verbatim>\<open>find_user_by\<close>.\<close>

datatype query = By_id nat | By_email string | By_session_id string | By_reset_token string

fun matches :: "query \<Rightarrow> user \<Rightarrow> bool" where
  "matches (By_id i) u = (user_id u = i)"
| "matches (By_email e) u = (email u = e)"
| "matches (By_session_id s) u = (session_id u = Some s)"
| "matches (By_reset_token t) u = (reset_token u = Some t)"

text \<open>
  Modelled from the spec: \<^verbatim>\<open>DB.find_user_by\<close> of db.py is missing. Section 4.3: each
  lookup "either returns exactly one matching record or signals NotFound"; section 6: the
  lookup paths on session token and reset token are non-unique. The model returns the
  first matching row.
\<close>

definition find_user_by :: "query \<Rightarrow> DB \<Rightarrow> error + user" where
  "find_user_by q db =
     (case List.find (matches q) db of
        None \<Rightarrow> Inl NoResultFound
      | Some u \<Rightarrow> Inr u)"

text \<open>A serial identifier: one more than the largest in the table.\<close>

definition next_id :: "DB \<Rightarrow> nat" where
  "next_id db = Suc (fold max (map user_id db) 0)"

text \<open>
  Modelled from the spec: \<^verbatim>\<open>DB.add_user\<close> of db.py is missing. Section 4.3:
  "add(email, hashed_password) -> User: fails with DuplicateEmail if email already
  present"; section 3: the id is "assigned at creation, serial or generated" and a user
  starts with no session and no reset token.
\<close>

definition add_user :: "string \<Rightarrow> string \<Rightarrow> DB \<Rightarrow> error + (user \<times> DB)" where
  "add_user e h db =
     (if list_ex (\<lambda>u. email u = e) db then Inl DuplicateEmail
      else
        let u = \<lparr>user_id = next_id db, email = e, hashed_password = h,
                 session_id = None, reset_token = None\<rparr>
        in Inr (u, db @ [u]))"

text \<open>The keyword arguments with which auth.py calls \<^verbatim>\<open>update_user\<close>.\<close>

datatype field =
    Set_hashed_password string
  | Set_session_id "string option"
  | Set_reset_token "string option"

fun set_field :: "field \<Rightarrow> user \<Rightarrow> user" where
  "set_field (Set_hashed_password h) u = u\<lparr>hashed_password := h\<rparr>"
| "set_field (Set_session_id s) u = u\<lparr>session_id := s\<rparr>"
| "set_field (Set_reset_token t) u = u\<lparr>reset_token := t\<rparr>"

text \<open>
  Modelled from the spec: \<^verbatim>\<open>DB.update_user\<close> of db.py is missing. Section 4.3:
  "update(id, **fields) -> void: partial update of mutable fields (session_id,
  reset_token, hashed_password); fails with NotFound if id unknown. Must be atomic
  per-call".
\<close>

definition update_user :: "nat \<Rightarrow> field list \<Rightarrow> DB \<Rightarrow> error + DB" where
  "update_user i fs db =
     (case find_user_by (By_id i) db of
        Inl e \<Rightarrow> Inl e
      | Inr _ \<Rightarrow> Inr (map (\<lambda>u. if user_id u = i then fold set_field fs u else u) db))"

section \<open>The authentication service (auth.py)\<close>

text \<open>
  bcrypt and uuid are libraries outside the repository. \<^verbatim>\<open>hashpw\<close> and \<^verbatim>\<open>checkpw\<close>
  are parameters (\<open>hashpw password salt\<close>, \<open>checkpw password hashed\<close>); \<^verbatim>\<open>checkpw\<close>
  returns its verdict or the exception it raises. The value that \<^verbatim>\<open>gensalt()\<close> or
  \<^verbatim>\<open>str(uuid4())\<close> draws in a call is an argument of that call (\<open>salt\<close>, \<open>uuid\<close>).
\<close>

type_synonym hashpw = "string \<Rightarrow> string \<Rightarrow> string"

definition hash_password :: "hashpw \<Rightarrow> string \<Rightarrow> string \<Rightarrow> string" where
  "hash_password hashpw salt password = hashpw password salt"

definition register_user ::
  "hashpw \<Rightarrow> string \<Rightarrow> string \<Rightarrow> string \<Rightarrow> DB \<Rightarrow> error + (user \<times> DB)" where
  "register_user hashpw salt e password db =
     (case find_user_by (By_email e) db of
        Inl ex \<Rightarrow>
          (if ex = NoResultFound
           then add_user e (hash_password hashpw salt password) db
           else Inl ex)
      | Inr _ \<Rightarrow> Inl (ValueError (''User '' @ e @ '' already exists'')))"


definition create_session :: "string \<Rightarrow> string \<Rightarrow> DB \<Rightarrow> error + (string option \<times> DB)" where
  "create_session uuid e db =
     (case find_user_by (By_email e) db of
        Inl ex \<Rightarrow> (if ex = NoResultFound then Inr (None, db) else Inl ex)
      | Inr found_user \<Rightarrow>
          (case update_user (user_id found_user) [Set_session_id (Some uuid)] db of
             Inl ex \<Rightarrow> Inl ex
           | Inr db' \<Rightarrow> Inr (Some uuid, db')))"

definition get_user_from_session_id :: "string option \<Rightarrow> DB \<Rightarrow> error + user option" where
  "get_user_from_session_id sid db =
     (case sid of
        None \<Rightarrow> Inr None
      | Some s \<Rightarrow>
          (case find_user_by (By_session_id s) db of
             Inr found_user \<Rightarrow> Inr (Some found_user)
           | Inl ex \<Rightarrow> (if ex = NoResultFound then Inr None else Inl ex)))"

definition destroy_session :: "nat option \<Rightarrow> DB \<Rightarrow> error + DB" where
  "destroy_session uid db =
     (case uid of
        None \<Rightarrow> Inr db
      | Some i \<Rightarrow>
          (case find_user_by (By_id i) db of
             Inl ex \<Rightarrow> (if ex = NoResultFound then Inr db else Inl ex)
           | Inr found_user \<Rightarrow>
               (case update_user (user_id found_user) [Set_session_id None] db of
                  Inl ex \<Rightarrow> (if ex = NoResultFound then Inr db else Inl ex)
                | Inr db' \<Rightarrow> Inr db')))"

definition get_reset_password_token :: "string \<Rightarrow> string \<Rightarrow> DB \<Rightarrow> error + (string \<times> DB)" where
  "get_reset_password_token uuid e db =
     (case find_user_by (By_email e) db of
        Inl ex \<Rightarrow> (if ex = NoResultFound then Inl (ValueError []) else Inl ex)
      | Inr u \<Rightarrow>
          (case update_user (user_id u) [Set_reset_token (Some uuid)] db of
             Inl ex \<Rightarrow> Inl ex
           | Inr db' \<Rightarrow> Inr (uuid, db')))"

definition update_password ::
  "hashpw \<Rightarrow> string \<Rightarrow> string option \<Rightarrow> string option \<Rightarrow> DB \<Rightarrow> error + DB" where
  "update_password hashpw salt tok password db =
     (case (tok, password) of
        (Some t, Some p) \<Rightarrow>
          (case find_user_by (By_reset_token t) db of
             Inl ex \<Rightarrow> (if ex = NoResultFound then Inl (ValueError []) else Inl ex)
           | Inr u \<Rightarrow>
               update_user (user_id u)
                 [Set_hashed_password (hash_password hashpw salt p), Set_reset_token None] db)
      | _ \<Rightarrow> Inr db)"

section \<open>Sequences of calls\<close>

text \<open>
  A call of the service, with the value that \<^verbatim>\<open>gensalt()\<close> or \<^verbatim>\<open>uuid4()\<close> draws in it:
  \<open>Register_user email password salt\<close>, \<open>Create_session email uuid\<close>,
  \<open>Get_reset_password_token email uuid\<close>, \<open>Update_password reset_token password salt\<close>.
\<close>

datatype call =
    Register_user string string string
  | Valid_login string string
  | Create_session string string
  | Get_user_from_session_id "string option"
  | Destroy_session "nat option"
  | Get_reset_password_token string string
  | Update_password "string option" "string option" string

text \<open>
  The store a call leaves: the one it returns, and the store as it was when the call
  raises (every \<^verbatim>\<open>raise\<close> of auth.py comes before the first write) or only reads.
\<close>

definition store_after :: "hashpw \<Rightarrow> call \<Rightarrow> DB \<Rightarrow> DB" where
  "store_after hashpw c db =
     (case c of
        Register_user e p salt \<Rightarrow>
          (case register_user hashpw salt e p db of Inr (_, db') \<Rightarrow> db' | Inl _ \<Rightarrow> db)
      | Valid_login e p \<Rightarrow> db
      | Create_session e uuid \<Rightarrow>
          (case create_session uuid e db of Inr (_, db') \<Rightarrow> db' | Inl _ \<Rightarrow> db)
      | Get_user_from_session_id sid \<Rightarrow> db
      | Destroy_session uid \<Rightarrow>
          (case destroy_session uid db of Inr db' \<Rightarrow> db' | Inl _ \<Rightarrow> db)
      | Get_reset_password_token e uuid \<Rightarrow>
          (case get_reset_password_token uuid e db of Inr (_, db') \<Rightarrow> db' | Inl _ \<Rightarrow> db)
      | Update_password tok p salt \<Rightarrow>
          (case update_password hashpw salt tok p db of Inr db' \<Rightarrow> db' | Inl _ \<Rightarrow> db))"

fun run :: "hashpw \<Rightarrow> call list \<Rightarrow> DB \<Rightarrow> DB" where
  "run hashpw [] db = db"
| "run hashpw (c # cs) db = run hashpw cs (store_after hashpw c db)"



text \<open>
  The password on record for each email, in the specification's words "the password used
  at registration (or the most recent successful update_password)": a call of
  \<^verbatim>\<open>register_user\<close> that returns a user records its password under its email, and a
  call of \<^verbatim>\<open>update_password\<close> that rewrites the row of the user found by the reset
  token records its password under that user's email. Every other call records nothing.
\<close>

type_synonym passwords = "string \<rightharpoonup> string"

definition note_password :: "hashpw \<Rightarrow> call \<Rightarrow> DB \<Rightarrow> passwords \<Rightarrow> passwords" where
  "note_password hashpw c db pw =
     (case c of
        Register_user e p salt \<Rightarrow>
          (case register_user hashpw salt e p db of Inr _ \<Rightarrow> pw(e \<mapsto> p) | Inl _ \<Rightarrow> pw)
      | Update_password (Some t) (Some p) salt \<Rightarrow>
          (case find_user_by (By_reset_token t) db of
             Inr u \<Rightarrow>
               (case update_password hashpw salt (Some t) (Some p) db of
                  Inr _ \<Rightarrow> pw(email u \<mapsto> p)
                | Inl _ \<Rightarrow> pw)
           | Inl _ \<Rightarrow> pw)
      | _ \<Rightarrow> pw)"

fun passwords_after :: "hashpw \<Rightarrow> call list \<Rightarrow> DB \<Rightarrow> passwords \<Rightarrow> passwords" where
  "passwords_after hashpw [] db pw = pw"
| "passwords_after hashpw (c # cs) db pw =
     passwords_after hashpw cs (store_after hashpw c db) (note_password hashpw c db pw)"

text \<open>
  The store and the record of passwords agree: ids and emails are distinct, and every
  stored hash was produced by \<^verbatim>\<open>hashpw\<close> from the password on record for the row's email.
\<close>

definition consistent :: "hashpw \<Rightarrow> DB \<Rightarrow> passwords \<Rightarrow> bool" where
  "consistent hashpw db pw =
     (distinct (map user_id db) \<and> distinct (map email db)
      \<and> (\<forall>u\<in>set db. \<exists>p salt. pw (email u) = Some p \<and> hashed_password u = hashpw p salt))"

text \<open>A change of a row that keeps its id, email and hashed password.\<close>

definition keeps :: "(user \<Rightarrow> user) \<Rightarrow> bool" where
  "keeps f = (\<forall>v. user_id (f v) = user_id v \<and> email (f v) = email v
                 \<and> hashed_password (f v) = hashed_password v)"

section \<open>Redaction of log lines (filtered_logger.py)\<close>











text \<open>
  A delimited message, in the specification's words a line of \<^verbatim>\<open>field=value<delim>\<close>
  items, and the line the claim asks for. The text \<^verbatim>\<open>field=\<close> of a listed field occurs
  in an item exactly when the item's key ends with the field name; the value of every
  such item is the marker, and the rest is as it was.
\<close>

definition render :: "string \<Rightarrow> (string \<times> string) list \<Rightarrow> string" where
  "render separator kvs = concat (map (\<lambda>(k, v). k @ ''='' @ v @ separator) kvs)"






section \<open>Facts about the store\<close>

lemma find_user_by_Inl: "find_user_by q db = Inl e \<Longrightarrow> e = NoResultFound"
  by (simp add: find_user_by_def split: option.splits)

lemma find_user_by_none:
  "(find_user_by q db = Inl NoResultFound) = (\<forall>u\<in>set db. \<not> matches q u)"
  by (induction db) (auto simp: find_user_by_def)

lemma find_user_by_some:
  "find_user_by q db = Inr u \<Longrightarrow> u \<in> set db \<and> matches q u"
  by (auto simp: find_user_by_def find_Some_iff split: option.splits)

lemma find_user_by_ex:
  "\<exists>u\<in>set db. matches q u \<Longrightarrow> \<exists>u. find_user_by q db = Inr u"
  by (induction db) (auto simp: find_user_by_def)

lemma find_map_same:
  "(\<And>u. P (f u) = P u) \<Longrightarrow> List.find P (map f xs) = map_option f (List.find P xs)"
  by (induction xs) auto

lemma find_user_by_map:
  "(\<And>u. matches q (f u) = matches q u) \<Longrightarrow>
   find_user_by q (map f db) = map_sum (\<lambda>e. e) f (find_user_by q db)"
  by (simp add: find_user_by_def find_map_same split: option.splits)

lemma update_user_Inr:
  "find_user_by (By_id i) db = Inr u \<Longrightarrow>
   update_user i fs db = Inr (map (\<lambda>v. if user_id v = i then fold set_field fs v else v) db)"
  by (simp add: update_user_def)

lemma destroy_session_eq:
  "destroy_session (Some i) db =
     Inr (map (\<lambda>u. if user_id u = i then u\<lparr>session_id := None\<rparr> else u) db)"
proof (cases "find_user_by (By_id i) db")
  case (Inl e)
  then have e: "e = NoResultFound" by (rule find_user_by_Inl)
  with Inl have "\<forall>u\<in>set db. user_id u \<noteq> i"
    by (simp add: find_user_by_none)
  then have "map (\<lambda>u. if user_id u = i then u\<lparr>session_id := None\<rparr> else u) db = db"
    by (simp add: map_idI)
  with Inl e show ?thesis by (simp add: destroy_session_def)
next
  case (Inr u)
  then have "user_id u = i" by (auto dest: find_user_by_some)
  with Inr show ?thesis
    by (simp add: destroy_session_def update_user_def)
qed

lemma find_user_by_first:
  "find_user_by q db = Inr u \<Longrightarrow>
   \<exists>k < length db. db ! k = u \<and> matches q u \<and> (\<forall>j < k. \<not> matches q (db ! j))"
  by (auto simp: find_user_by_def find_Some_iff split: option.splits)

lemma find_user_by_ex':
  "u \<in> set db \<Longrightarrow> matches q u \<Longrightarrow> \<exists>w. find_user_by q db = Inr w"
  using find_user_by_ex by blast

lemma distinct_ids_eq:
  "distinct (map user_id db) \<Longrightarrow> u \<in> set db \<Longrightarrow> v \<in> set db \<Longrightarrow>
   user_id u = user_id v \<Longrightarrow> u = v"
  by (simp add: distinct_map inj_on_def)

lemma find_unique:
  "x \<in> set xs \<Longrightarrow> P x \<Longrightarrow> (\<forall>y\<in>set xs. P y \<longrightarrow> y = x) \<Longrightarrow> List.find P xs = Some x"
proof (induction xs)
  case Nil
  then show ?case by simp
next
  case (Cons a xs)
  show ?case
  proof (cases "P a")
    case True
    with Cons.prems have "a = x" by simp
    with True show ?thesis by simp
  next
    case False
    with Cons.prems have "x \<in> set xs" by auto
    moreover from Cons.prems have "\<forall>y\<in>set xs. P y \<longrightarrow> y = x" by simp
    ultimately have "List.find P xs = Some x"
      using Cons.IH Cons.prems(2) by blast
    with False show ?thesis by simp
  qed
qed

lemma update_user_member:
  "u \<in> set db \<Longrightarrow>
   update_user (user_id u) fs db =
     Inr (map (\<lambda>v. if user_id v = user_id u then fold set_field fs v else v) db)"
proof -
  assume "u \<in> set db"
  then obtain w where "find_user_by (By_id (user_id u)) db = Inr w"
    using find_user_by_ex' [of u db "By_id (user_id u)"] by auto
  then show ?thesis by (rule update_user_Inr)
qed

lemma get_user_from_session_id_Some:
  "get_user_from_session_id (Some sid) db = Inr (Some v) \<Longrightarrow>
   find_user_by (By_session_id sid) db = Inr v"
  by (cases "find_user_by (By_session_id sid) db")
     (auto simp: get_user_from_session_id_def split: if_splits)

lemma create_session_Inr:
  "find_user_by (By_email e) db = Inr u \<Longrightarrow>
   create_session uuid e db =
     Inr (Some uuid,
          map (\<lambda>v. if user_id v = user_id u then v\<lparr>session_id := Some uuid\<rparr> else v) db)"
proof -
  assume f: "find_user_by (By_email e) db = Inr u"
  then have "u \<in> set db" by (auto dest: find_user_by_some)
  from update_user_member [OF this, of "[Set_session_id (Some uuid)]"] f
  show ?thesis by (simp add: create_session_def)
qed

lemma get_reset_password_token_Inr:
  "get_reset_password_token uuid e db = Inr (tok, db1) \<Longrightarrow>
   \<exists>u. find_user_by (By_email e) db = Inr u \<and> tok = uuid \<and>
       db1 = map (\<lambda>v. if user_id v = user_id u then v\<lparr>reset_token := Some uuid\<rparr> else v) db"
proof (cases "find_user_by (By_email e) db")
  case (Inl ex)
  assume "get_reset_password_token uuid e db = Inr (tok, db1)"
  with Inl show ?thesis
    by (simp add: get_reset_password_token_def split: if_splits)
next
  case (Inr u)
  assume g: "get_reset_password_token uuid e db = Inr (tok, db1)"
  from Inr have "u \<in> set db" by (auto dest: find_user_by_some)
  from update_user_member [OF this, of "[Set_reset_token (Some uuid)]"] Inr g
  show ?thesis by (auto simp: get_reset_password_token_def)
qed

section \<open>Facts about sequences of calls\<close>

lemma fold_max_ge: "a \<le> fold max xs (a::nat)"
proof (induction xs arbitrary: a)
  case Nil
  show ?case by simp
next
  case (Cons x xs)
  have "a \<le> max x a" by simp
  also have "\<dots> \<le> fold max xs (max x a)" by (rule Cons.IH)
  finally show ?case by simp
qed

lemma fold_max_member: "x \<in> set xs \<Longrightarrow> x \<le> fold max xs (a::nat)"
proof (induction xs arbitrary: a)
  case Nil
  then show ?case by simp
next
  case (Cons y xs)
  show ?case
  proof (cases "x = y")
    case True
    have "x \<le> max y a" using True by simp
    also have "\<dots> \<le> fold max xs (max y a)" by (rule fold_max_ge)
    finally show ?thesis by simp
  next
    case False
    with Cons.prems have "x \<in> set xs" by simp
    then show ?thesis using Cons.IH by simp
  qed
qed

lemma next_id_fresh: "u \<in> set db \<Longrightarrow> user_id u < next_id db"
proof -
  assume "u \<in> set db"
  then have "user_id u \<in> set (map user_id db)" by simp
  then have "user_id u \<le> fold max (map user_id db) 0" by (rule fold_max_member)
  then show ?thesis by (simp add: next_id_def)
qed

lemma register_user_new:
  "\<forall>u\<in>set db. email u \<noteq> e \<Longrightarrow>
   register_user hashpw salt e p db =
     Inr (\<lparr>user_id = next_id db, email = e, hashed_password = hash_password hashpw salt p,
           session_id = None, reset_token = None\<rparr>,
          db @ [\<lparr>user_id = next_id db, email = e,
                  hashed_password = hash_password hashpw salt p,
                  session_id = None, reset_token = None\<rparr>])"
proof -
  assume a: "\<forall>u\<in>set db. email u \<noteq> e"
  then have "find_user_by (By_email e) db = Inl NoResultFound"
    by (simp add: find_user_by_none)
  moreover from a have "\<not> list_ex (\<lambda>u. email u = e) db"
    by (simp add: list_ex_iff)
  ultimately show ?thesis
    by (simp add: register_user_def add_user_def Let_def)
qed

lemma register_user_taken:
  "u \<in> set db \<Longrightarrow> email u = e \<Longrightarrow>
   register_user hashpw salt e p db = Inl (ValueError (''User '' @ e @ '' already exists''))"
proof -
  assume "u \<in> set db" "email u = e"
  then obtain w where "find_user_by (By_email e) db = Inr w"
    using find_user_by_ex' [of u db "By_email e"] by auto
  then show ?thesis by (simp add: register_user_def)
qed



lemma update_password_Inr:
  "find_user_by (By_reset_token t) db = Inr u \<Longrightarrow>
   update_password hashpw salt (Some t) (Some p) db =
     Inr (map (\<lambda>v. if user_id v = user_id u
                    then v\<lparr>hashed_password := hash_password hashpw salt p, reset_token := None\<rparr>
                    else v) db)"
proof -
  assume f: "find_user_by (By_reset_token t) db = Inr u"
  then have "u \<in> set db" by (auto dest: find_user_by_some)
  from update_user_member [OF this] f show ?thesis
    by (simp add: update_password_def)
qed

lemma update_password_None:
  "tok = None \<or> password = None \<Longrightarrow> update_password hashpw salt tok password db = Inr db"
  by (auto simp: update_password_def split: option.splits)

lemma update_password_Inl:
  "find_user_by (By_reset_token t) db = Inl ex \<Longrightarrow>
   update_password hashpw salt (Some t) (Some p) db = Inl (ValueError [])"
proof -
  assume f: "find_user_by (By_reset_token t) db = Inl ex"
  then have "ex = NoResultFound" by (rule find_user_by_Inl)
  with f show ?thesis by (simp add: update_password_def)
qed

lemma call_cases:
  "(\<exists>f. keeps f \<and> store_after hashpw c db = map f db \<and> note_password hashpw c db pw = pw)
   \<or> (\<exists>e p salt. c = Register_user e p salt \<and> (\<forall>v\<in>set db. email v \<noteq> e)
        \<and> store_after hashpw c db =
            db @ [\<lparr>user_id = next_id db, email = e,
                    hashed_password = hash_password hashpw salt p,
                    session_id = None, reset_token = None\<rparr>]
        \<and> note_password hashpw c db pw = pw(e \<mapsto> p))
   \<or> (\<exists>t p salt u. c = Update_password (Some t) (Some p) salt \<and> u \<in> set db
        \<and> store_after hashpw c db =
            map (\<lambda>v. if user_id v = user_id u
                     then v\<lparr>hashed_password := hash_password hashpw salt p,
                            reset_token := None\<rparr>
                     else v) db
        \<and> note_password hashpw c db pw = pw(email u \<mapsto> p))"
  (is "?K \<or> ?R \<or> ?U")
proof -
  have same: "store_after hashpw c db = db \<Longrightarrow> note_password hashpw c db pw = pw \<Longrightarrow> ?K"
  proof -
    assume a: "store_after hashpw c db = db" "note_password hashpw c db pw = pw"
    have "keeps (\<lambda>v. v)" by (simp add: keeps_def)
    moreover have "store_after hashpw c db = map (\<lambda>v. v) db" using a by simp
    ultimately show ?K using a(2) by blast
  qed
  show ?thesis
  proof (cases c)
    case (Register_user e p salt)
    show ?thesis
    proof (cases "\<forall>v\<in>set db. email v \<noteq> e")
      case True
      from register_user_new [OF True, of hashpw salt p] Register_user True
      have ?R by (simp add: store_after_def note_password_def)
      then show ?thesis by blast
    next
      case False
      then obtain v where "v \<in> set db" "email v = e" by blast
      from register_user_taken [OF this, of hashpw salt p] Register_user
      have "store_after hashpw c db = db" "note_password hashpw c db pw = pw"
        by (simp_all add: store_after_def note_password_def)
      then show ?thesis using same by blast
    qed
  next
    case (Valid_login e p)
    then have "store_after hashpw c db = db" "note_password hashpw c db pw = pw"
      by (simp_all add: store_after_def note_password_def)
    then show ?thesis using same by blast
  next
    case (Create_session e uuid)
    then have n: "note_password hashpw c db pw = pw" by (simp add: note_password_def)
    show ?thesis
    proof (cases "find_user_by (By_email e) db")
      case (Inl ex)
      then have "ex = NoResultFound" by (rule find_user_by_Inl)
      with Inl Create_session have "store_after hashpw c db = db"
        by (simp add: store_after_def create_session_def)
      then show ?thesis using same n by blast
    next
      case (Inr u)
      let ?f = "\<lambda>v. if user_id v = user_id u then v\<lparr>session_id := Some uuid\<rparr> else v"
      have "keeps ?f" by (simp add: keeps_def)
      moreover from create_session_Inr [OF Inr, of uuid] Create_session
      have "store_after hashpw c db = map ?f db" by (simp add: store_after_def)
      ultimately have ?K using n by blast
      then show ?thesis by blast
    qed
  next
    case (Get_user_from_session_id sid)
    then have "store_after hashpw c db = db" "note_password hashpw c db pw = pw"
      by (simp_all add: store_after_def note_password_def)
    then show ?thesis using same by blast
  next
    case (Destroy_session uid)
    then have n: "note_password hashpw c db pw = pw" by (simp add: note_password_def)
    show ?thesis
    proof (cases uid)
      case None
      with Destroy_session have "store_after hashpw c db = db"
        by (simp add: store_after_def destroy_session_def)
      then show ?thesis using same n by blast
    next
      case (Some i)
      let ?f = "\<lambda>v. if user_id v = i then v\<lparr>session_id := None\<rparr> else v"
      have "keeps ?f" by (simp add: keeps_def)
      moreover from destroy_session_eq [of i db] Destroy_session Some
      have "store_after hashpw c db = map ?f db" by (simp add: store_after_def)
      ultimately have ?K using n by blast
      then show ?thesis by blast
    qed
  next
    case (Get_reset_password_token e uuid)
    then have n: "note_password hashpw c db pw = pw" by (simp add: note_password_def)
    show ?thesis
    proof (cases "get_reset_password_token uuid e db")
      case (Inl ex)
      with Get_reset_password_token have "store_after hashpw c db = db"
        by (simp add: store_after_def)
      then show ?thesis using same n by blast
    next
      case (Inr r)
      obtain tok db1 where r: "r = (tok, db1)" by (cases r)
      from get_reset_password_token_Inr [OF Inr [unfolded r]]
      obtain u where "find_user_by (By_email e) db = Inr u \<and> tok = uuid \<and>
                      db1 = map (\<lambda>v. if user_id v = user_id u
                               then v\<lparr>reset_token := Some uuid\<rparr> else v) db" ..
      then have db1: "db1 = map (\<lambda>v. if user_id v = user_id u
                               then v\<lparr>reset_token := Some uuid\<rparr> else v) db"
        by simp
      let ?f = "\<lambda>v. if user_id v = user_id u then v\<lparr>reset_token := Some uuid\<rparr> else v"
      have "keeps ?f" by (simp add: keeps_def)
      moreover from Inr r db1 Get_reset_password_token
      have "store_after hashpw c db = map ?f db" by (simp add: store_after_def)
      ultimately have ?K using n by blast
      then show ?thesis by blast
    qed
  next
    case (Update_password tok po salt)
    show ?thesis
    proof (cases "tok = None \<or> po = None")
      case True
      then have "update_password hashpw salt tok po db = Inr db"
        by (rule update_password_None)
      with Update_password True
      have "store_after hashpw c db = db" "note_password hashpw c db pw = pw"
        by (auto simp: store_after_def note_password_def split: option.splits)
      then show ?thesis using same by blast
    next
      case False
      then obtain t p where tp: "tok = Some t" "po = Some p" by auto
      show ?thesis
      proof (cases "find_user_by (By_reset_token t) db")
        case (Inl ex)
        from update_password_Inl [OF Inl, of hashpw salt p] Inl Update_password tp
        have "store_after hashpw c db = db" "note_password hashpw c db pw = pw"
          by (simp_all add: store_after_def note_password_def)
        then show ?thesis using same by blast
      next
        case (Inr u)
        then have "u \<in> set db" by (auto dest: find_user_by_some)
        with update_password_Inr [OF Inr, of hashpw salt p] Inr Update_password tp
        have "c = Update_password (Some t) (Some p) salt \<and> u \<in> set db
          \<and> store_after hashpw c db =
            map (\<lambda>v. if user_id v = user_id u
                     then v\<lparr>hashed_password := hash_password hashpw salt p,
                            reset_token := None\<rparr>
                     else v) db
          \<and> note_password hashpw c db pw = pw(email u \<mapsto> p)"
          by (simp add: store_after_def note_password_def)
        then have ?U by (intro exI)
        then show ?thesis by blast
      qed
    qed
  qed
qed


lemma consistent_empty: "consistent hashpw [] Map.empty"
  by (simp add: consistent_def)

lemma keeps_maps:
  assumes "keeps f"
  shows "map user_id (map f db) = map user_id db"
    and "map email (map f db) = map email db"
    and "map hashed_password (map f db) = map hashed_password db"
  using assms by (simp_all add: keeps_def)

lemma consistent_step:
  assumes "consistent hashpw db pw"
  shows "consistent hashpw (store_after hashpw c db) (note_password hashpw c db pw)"
proof -
  from assms have ids: "distinct (map user_id db)" and emails: "distinct (map email db)"
    and hashes: "\<And>u. u \<in> set db \<Longrightarrow>
                   \<exists>p salt. pw (email u) = Some p \<and> hashed_password u = hashpw p salt"
    by (simp_all add: consistent_def)
  from call_cases [of hashpw c db pw]
  consider
    (K) f where "keeps f" "store_after hashpw c db = map f db"
         "note_password hashpw c db pw = pw"
  | (R) e p salt where "c = Register_user e p salt" "\<forall>v\<in>set db. email v \<noteq> e"
         "store_after hashpw c db =
            db @ [\<lparr>user_id = next_id db, email = e,
                    hashed_password = hash_password hashpw salt p,
                    session_id = None, reset_token = None\<rparr>]"
         "note_password hashpw c db pw = pw(e \<mapsto> p)"
  | (U) t p salt u where "c = Update_password (Some t) (Some p) salt" "u \<in> set db"
         "store_after hashpw c db =
            map (\<lambda>v. if user_id v = user_id u
                     then v\<lparr>hashed_password := hash_password hashpw salt p,
                            reset_token := None\<rparr>
                     else v) db"
         "note_password hashpw c db pw = pw(email u \<mapsto> p)"
    by (elim disjE exE conjE) blast+
  then show ?thesis
  proof cases
    case K
    have "\<forall>u\<in>set (map f db).
            \<exists>p salt. pw (email u) = Some p \<and> hashed_password u = hashpw p salt"
    proof
      fix u assume "u \<in> set (map f db)"
      then obtain v where v: "v \<in> set db" and u: "u = f v" by auto
      from K(1) u have "email u = email v" "hashed_password u = hashed_password v"
        by (simp_all add: keeps_def)
      with hashes [OF v]
      show "\<exists>p salt. pw (email u) = Some p \<and> hashed_password u = hashpw p salt" by simp
    qed
    moreover have "distinct (map user_id (map f db))" "distinct (map email (map f db))"
      using ids emails by (simp_all only: keeps_maps [OF K(1)])
    ultimately show ?thesis
      unfolding consistent_def K(2) K(3) by (intro conjI)
  next
    case R
    let ?u = "\<lparr>user_id = next_id db, email = e,
                hashed_password = hash_password hashpw salt p,
                session_id = None, reset_token = None\<rparr>"
    have "next_id db \<notin> set (map user_id db)"
      using next_id_fresh [of _ db] by fastforce
    with ids have d1: "distinct (map user_id (db @ [?u]))" by simp
    from R(2) have "e \<notin> set (map email db)" by auto
    with emails have d2: "distinct (map email (db @ [?u]))" by simp
    have "\<forall>u\<in>set (db @ [?u]).
            \<exists>q s. (pw(e \<mapsto> p)) (email u) = Some q \<and> hashed_password u = hashpw q s"
    proof
      fix u assume "u \<in> set (db @ [?u])"
      then consider "u \<in> set db" | "u = ?u" by auto
      then show "\<exists>q s. (pw(e \<mapsto> p)) (email u) = Some q \<and> hashed_password u = hashpw q s"
      proof cases
        case 1
        with R(2) have "email u \<noteq> e" by simp
        with hashes [OF 1] show ?thesis by simp
      next
        case 2
        then have "(pw(e \<mapsto> p)) (email u) = Some p \<and> hashed_password u = hashpw p salt"
          by (simp add: hash_password_def)
        then show ?thesis by blast
      qed
    qed
    with d1 d2 show ?thesis
      unfolding consistent_def R(3) R(4) by (intro conjI)
  next
    case U
    define g :: "user \<Rightarrow> user" where
      "g = (\<lambda>v. if user_id v = user_id u
                then v\<lparr>hashed_password := hash_password hashpw salt p, reset_token := None\<rparr>
                else v)"
    have g_id: "\<And>v. user_id (g v) = user_id v" and g_email: "\<And>v. email (g v) = email v"
      by (simp_all add: g_def)
    have after: "store_after hashpw c db = map g db" using U(3) by (simp add: g_def)
    have "map user_id (map g db) = map user_id db" by (simp add: g_id)
    then have d1: "distinct (map user_id (map g db))" using ids by (simp only:)
    have "map email (map g db) = map email db" by (simp add: g_email)
    then have d2: "distinct (map email (map g db))" using emails by (simp only:)
    have "\<forall>w\<in>set (map g db).
            \<exists>q s. (pw(email u \<mapsto> p)) (email w) = Some q \<and> hashed_password w = hashpw q s"
    proof
      fix w assume "w \<in> set (map g db)"
      then obtain v where v: "v \<in> set db" and w: "w = g v" by auto
      show "\<exists>q s. (pw(email u \<mapsto> p)) (email w) = Some q \<and> hashed_password w = hashpw q s"
      proof (cases "v = u")
        case True
        with w have "(pw(email u \<mapsto> p)) (email w) = Some p
                     \<and> hashed_password w = hashpw p salt"
          by (simp add: g_def hash_password_def)
        then show ?thesis by blast
      next
        case False
        with distinct_ids_eq [OF ids v U(2)] have "user_id v \<noteq> user_id u" by blast
        then have gv: "g v = v" by (simp add: g_def)
        from emails v U(2) False have "email v \<noteq> email u"
          by (auto simp: distinct_map inj_on_def)
        with hashes [OF v] w gv show ?thesis by simp
      qed
    qed
    with d1 d2 show ?thesis
      unfolding consistent_def after U(4) by (intro conjI)
  qed
qed

lemma consistent_run:
  "consistent hashpw db pw \<Longrightarrow>
   consistent hashpw (run hashpw cs db) (passwords_after hashpw cs db pw)"
proof (induction cs arbitrary: db pw)
  case Nil
  then show ?case by simp
next
  case (Cons c cs)
  from consistent_step [OF Cons.prems]
  have "consistent hashpw (store_after hashpw c db) (note_password hashpw c db pw)" .
  from Cons.IH [OF this] show ?case by simp
qed




section \<open>Facts about the matcher and the substitution\<close>
















lemma render_Cons:
  "render sep ((k, v) # kvs) = (k @ ''='' @ v @ sep) @ render sep kvs"
  by (simp add: render_def)













section \<open>Claims\<close>

text \<open>
  C6, as amended. \<^verbatim>\<open>update_password\<close> returns without raising and leaves the store
  as it was whenever either argument is \<^verbatim>\<open>None\<close>. When both arguments are strings
  (the empty string included) and no stored \<^verbatim>\<open>reset_token\<close> equals the token, it
  raises \<^verbatim>\<open>ValueError\<close> (the specification's \<^verbatim>\<open>InvalidResetToken\<close>).
\<close>

theorem update_password_guard:
  "((tok = None \<or> password = None) \<longrightarrow> update_password hashpw salt tok password db = Inr db)
   \<and> ((\<forall>u\<in>set db. reset_token u \<noteq> Some t) \<longrightarrow>
        update_password hashpw salt (Some t) (Some p) db = Inl (ValueError []))"
proof (intro conjI impI)
  assume "tok = None \<or> password = None"
  then show "update_password hashpw salt tok password db = Inr db"
    by (auto simp: update_password_def split: option.splits)
next
  assume "\<forall>u\<in>set db. reset_token u \<noteq> Some t"
  then have "find_user_by (By_reset_token t) db = Inl NoResultFound"
    by (simp add: find_user_by_none)
  then show "update_password hashpw salt (Some t) (Some p) db = Inl (ValueError [])"
    by (simp add: update_password_def)
qed

theorem update_password_guard_witness:
  "update_password (\<lambda>p s. s @ p) ''salt'' None (Some ''pw'')
     [\<lparr>user_id = 1, email = ''a@x.com'', hashed_password = ''h'',
       session_id = None, reset_token = Some ''r1''\<rparr>]
   = Inr [\<lparr>user_id = 1, email = ''a@x.com'', hashed_password = ''h'',
       session_id = None, reset_token = Some ''r1''\<rparr>]
   \<and> update_password (\<lambda>p s. s @ p) ''salt'' (Some ''r2'') (Some ''pw'')
     [\<lparr>user_id = 1, email = ''a@x.com'', hashed_password = ''h'',
       session_id = None, reset_token = Some ''r1''\<rparr>]
   = Inl (ValueError [])"
  using update_password_guard
    [of None "Some ''pw''" "\<lambda>p s. s @ p" "''salt''"
        "[\<lparr>user_id = 1, email = ''a@x.com'', hashed_password = ''h'',
           session_id = None, reset_token = Some ''r1''\<rparr>]" "''r2''" "''pw''"]
  by simp

text \<open>
  The guard of \<^verbatim>\<open>update_password\<close> is \<^verbatim>\<open>is None\<close> only: with the empty token it
  raises \<^verbatim>\<open>ValueError\<close> on the empty store, and with the empty password and a
  stored token it rewrites the user's row.
\<close>

theorem update_password_empty_counterexample:
  "update_password (\<lambda>p s. s @ p) ''salt'' (Some []) (Some ''pw'') [] = Inl (ValueError [])
   \<and> update_password (\<lambda>p s. s @ p) ''salt'' (Some ''r1'') (Some [])
     [\<lparr>user_id = 1, email = ''a@x.com'', hashed_password = ''h'',
       session_id = None, reset_token = Some ''r1''\<rparr>]
   = Inr [\<lparr>user_id = 1, email = ''a@x.com'', hashed_password = ''salt'',
       session_id = None, reset_token = None\<rparr>]"
  by (simp add: update_password_def find_user_by_def update_user_def hash_password_def)

text \<open>
  C5, as amended. \<^verbatim>\<open>get_user_from_session_id\<close> returns \<^verbatim>\<open>None\<close> when the token
  is \<^verbatim>\<open>None\<close>, and when no stored \<^verbatim>\<open>session_id\<close> equals the token. Every other
  token, the empty string included, is looked up in the store, and the first user whose
  stored \<^verbatim>\<open>session_id\<close> equals it is returned.
\<close>

theorem get_user_from_session_id_cases:
  "get_user_from_session_id None db = Inr None
   \<and> ((\<forall>u\<in>set db. session_id u \<noteq> Some s) \<longrightarrow>
        get_user_from_session_id (Some s) db = Inr None)
   \<and> ((\<exists>u\<in>set db. session_id u = Some s) \<longrightarrow>
        (\<exists>u\<in>set db. session_id u = Some s \<and>
           find_user_by (By_session_id s) db = Inr u \<and>
           get_user_from_session_id (Some s) db = Inr (Some u)))"
proof (intro conjI impI)
  show "get_user_from_session_id None db = Inr None"
    by (simp add: get_user_from_session_id_def)
next
  assume "\<forall>u\<in>set db. session_id u \<noteq> Some s"
  then have "find_user_by (By_session_id s) db = Inl NoResultFound"
    by (simp add: find_user_by_none)
  then show "get_user_from_session_id (Some s) db = Inr None"
    by (simp add: get_user_from_session_id_def)
next
  assume "\<exists>u\<in>set db. session_id u = Some s"
  then have "\<exists>u\<in>set db. matches (By_session_id s) u" by simp
  then obtain u where u: "find_user_by (By_session_id s) db = Inr u"
    using find_user_by_ex by blast
  then have "u \<in> set db" "session_id u = Some s"
    by (auto dest: find_user_by_some)
  with u show "\<exists>u\<in>set db. session_id u = Some s \<and>
           find_user_by (By_session_id s) db = Inr u \<and>
           get_user_from_session_id (Some s) db = Inr (Some u)"
    by (auto simp: get_user_from_session_id_def)
qed

theorem get_user_from_session_id_cases_witness:
  "get_user_from_session_id (Some ''t1'')
     [\<lparr>user_id = 1, email = ''a@x.com'', hashed_password = ''h'',
       session_id = Some ''t2'', reset_token = None\<rparr>] = Inr None
   \<and> get_user_from_session_id (Some ''t2'')
     [\<lparr>user_id = 1, email = ''a@x.com'', hashed_password = ''h'',
       session_id = Some ''t2'', reset_token = None\<rparr>]
     = Inr (Some \<lparr>user_id = 1, email = ''a@x.com'', hashed_password = ''h'',
       session_id = Some ''t2'', reset_token = None\<rparr>)"
  using get_user_from_session_id_cases
    [of "[\<lparr>user_id = 1, email = ''a@x.com'', hashed_password = ''h'',
       session_id = Some ''t2'', reset_token = None\<rparr>]" "''t1''"]
    get_user_from_session_id_cases
    [of "[\<lparr>user_id = 1, email = ''a@x.com'', hashed_password = ''h'',
       session_id = Some ''t2'', reset_token = None\<rparr>]" "''t2''"]
  by simp

text \<open>
  The guard of \<^verbatim>\<open>get_user_from_session_id\<close> is \<^verbatim>\<open>session_id is None\<close> only: the
  empty token is looked up, and a row whose \<^verbatim>\<open>session_id\<close> is the empty string is
  returned for it.
\<close>

theorem get_user_from_session_id_empty_counterexample:
  "get_user_from_session_id (Some [])
     [\<lparr>user_id = 1, email = ''a@x.com'', hashed_password = ''h'',
       session_id = Some [], reset_token = None\<rparr>]
   = Inr (Some \<lparr>user_id = 1, email = ''a@x.com'', hashed_password = ''h'',
       session_id = Some [], reset_token = None\<rparr>)"
  by (simp add: get_user_from_session_id_def find_user_by_def)

text \<open>
  C7. \<^verbatim>\<open>destroy_session\<close> never raises. With the id \<^verbatim>\<open>None\<close>, or an id that no user
  has, it leaves the store as it was. For every id, after a first call every user with
  that id has \<^verbatim>\<open>session_id = None\<close>, a second call with the same id returns the store
  of the first call unchanged, and no row is removed: the ids, emails, hashed passwords
  and reset tokens of the table are the same, row by row.
\<close>

theorem destroy_session_idempotent:
  "destroy_session None db = Inr db
   \<and> ((\<forall>u\<in>set db. user_id u \<noteq> i) \<longrightarrow> destroy_session (Some i) db = Inr db)
   \<and> (\<exists>db1. destroy_session (Some i) db = Inr db1
         \<and> destroy_session (Some i) db1 = Inr db1
         \<and> (\<forall>u\<in>set db1. user_id u = i \<longrightarrow> session_id u = None)
         \<and> length db1 = length db
         \<and> map user_id db1 = map user_id db
         \<and> map email db1 = map email db
         \<and> map hashed_password db1 = map hashed_password db
         \<and> map reset_token db1 = map reset_token db)"
proof (intro conjI impI)
  show "destroy_session None db = Inr db"
    by (simp add: destroy_session_def)
next
  assume "\<forall>u\<in>set db. user_id u \<noteq> i"
  then have "map (\<lambda>u. if user_id u = i then u\<lparr>session_id := None\<rparr> else u) db = db"
    by (simp add: map_idI)
  then show "destroy_session (Some i) db = Inr db"
    by (simp add: destroy_session_eq)
next
  let ?f = "\<lambda>u. if user_id u = i then u\<lparr>session_id := None\<rparr> else u"
  have again: "map ?f (map ?f db) = map ?f db" by simp
  have "destroy_session (Some i) db = Inr (map ?f db)"
    by (rule destroy_session_eq)
  moreover have "destroy_session (Some i) (map ?f db) = Inr (map ?f db)"
    by (simp only: destroy_session_eq [of i "map ?f db"] again)
  moreover have "\<forall>u\<in>set (map ?f db). user_id u = i \<longrightarrow> session_id u = None"
  proof -
    have "\<forall>v\<in>set db. user_id (?f v) = i \<longrightarrow> session_id (?f v) = None" by simp
    then show ?thesis by (simp only: set_map ball_simps)
  qed
  moreover have "length (map ?f db) = length db" by simp
  moreover have "map user_id (map ?f db) = map user_id db" by simp
  moreover have "map email (map ?f db) = map email db" by simp
  moreover have "map hashed_password (map ?f db) = map hashed_password db" by simp
  moreover have "map reset_token (map ?f db) = map reset_token db" by simp
  ultimately have "destroy_session (Some i) db = Inr (map ?f db)
         \<and> destroy_session (Some i) (map ?f db) = Inr (map ?f db)
         \<and> (\<forall>u\<in>set (map ?f db). user_id u = i \<longrightarrow> session_id u = None)
         \<and> length (map ?f db) = length db
         \<and> map user_id (map ?f db) = map user_id db
         \<and> map email (map ?f db) = map email db
         \<and> map hashed_password (map ?f db) = map hashed_password db
         \<and> map reset_token (map ?f db) = map reset_token db"
    by (intro conjI)
  then show "\<exists>db1. destroy_session (Some i) db = Inr db1
         \<and> destroy_session (Some i) db1 = Inr db1
         \<and> (\<forall>u\<in>set db1. user_id u = i \<longrightarrow> session_id u = None)
         \<and> length db1 = length db
         \<and> map user_id db1 = map user_id db
         \<and> map email db1 = map email db
         \<and> map hashed_password db1 = map hashed_password db
         \<and> map reset_token db1 = map reset_token db"
    by (rule exI)
qed

theorem destroy_session_idempotent_witness:
  "destroy_session (Some 2)
     [\<lparr>user_id = 1, email = ''a@x.com'', hashed_password = ''h'',
       session_id = Some ''s1'', reset_token = None\<rparr>]
   = Inr [\<lparr>user_id = 1, email = ''a@x.com'', hashed_password = ''h'',
       session_id = Some ''s1'', reset_token = None\<rparr>]
   \<and> destroy_session (Some 1)
     [\<lparr>user_id = 1, email = ''a@x.com'', hashed_password = ''h'',
       session_id = Some ''s1'', reset_token = None\<rparr>]
   = Inr [\<lparr>user_id = 1, email = ''a@x.com'', hashed_password = ''h'',
       session_id = None, reset_token = None\<rparr>]"
  using destroy_session_idempotent
    [of "[\<lparr>user_id = 1, email = ''a@x.com'', hashed_password = ''h'',
           session_id = Some ''s1'', reset_token = None\<rparr>]" 2]
  by (simp add: destroy_session_eq)

text \<open>
  C10. In a table whose ids are distinct (\<^verbatim>\<open>id\<close> is the primary key), a call of
  \<^verbatim>\<open>update_password\<close> that finds the user \<open>u\<close> of the reset token succeeds and changes
  only the row of \<open>u\<close>, there only \<^verbatim>\<open>hashed_password\<close> and \<^verbatim>\<open>reset_token\<close>: the id,
  email and session id of every row are kept and every other row is kept whole. So a
  session token that identified a user before the call identifies the same user after it.
\<close>

theorem update_password_frame:
  assumes "distinct (map user_id db)"
      and "find_user_by (By_reset_token t) db = Inr u"
  shows "\<exists>db'. update_password hashpw salt (Some t) (Some p) db = Inr db'
           \<and> length db' = length db
           \<and> (\<forall>k<length db.
                 user_id (db' ! k) = user_id (db ! k)
               \<and> email (db' ! k) = email (db ! k)
               \<and> session_id (db' ! k) = session_id (db ! k)
               \<and> (db ! k \<noteq> u \<longrightarrow> db' ! k = db ! k)
               \<and> (db ! k = u \<longrightarrow>
                    db' ! k = u\<lparr>hashed_password := hash_password hashpw salt p,
                                reset_token := None\<rparr>))
           \<and> (\<forall>sid v. get_user_from_session_id (Some sid) db = Inr (Some v) \<longrightarrow>
                 (\<exists>v'. get_user_from_session_id (Some sid) db' = Inr (Some v')
                    \<and> user_id v' = user_id v \<and> email v' = email v
                    \<and> session_id v' = session_id v))"
proof -
  define h where "h = hash_password hashpw salt p"
  define g :: "user \<Rightarrow> user" where "g = (\<lambda>v. if user_id v = user_id u
                 then fold set_field [Set_hashed_password h, Set_reset_token None] v else v)"
  have g_id: "\<And>v. user_id (g v) = user_id v"
    and g_email: "\<And>v. email (g v) = email v"
    and g_session: "\<And>v. session_id (g v) = session_id v"
    and g_other: "\<And>v. user_id v \<noteq> user_id u \<Longrightarrow> g v = v"
    and g_u: "g u = u\<lparr>hashed_password := h, reset_token := None\<rparr>"
    by (simp_all add: g_def)
  from assms(2) have u: "u \<in> set db" by (auto dest: find_user_by_some)
  have run: "update_password hashpw salt (Some t) (Some p) db = Inr (map g db)"
    using assms(2) update_user_member [OF u] by (simp add: update_password_def g_def h_def)
  have rows: "\<forall>k<length db.
                 user_id (map g db ! k) = user_id (db ! k)
               \<and> email (map g db ! k) = email (db ! k)
               \<and> session_id (map g db ! k) = session_id (db ! k)
               \<and> (db ! k \<noteq> u \<longrightarrow> map g db ! k = db ! k)
               \<and> (db ! k = u \<longrightarrow>
                    map g db ! k = u\<lparr>hashed_password := h, reset_token := None\<rparr>)"
  proof (intro allI impI)
    fix k assume k: "k < length db"
    then have mem: "db ! k \<in> set db" by simp
    have other: "db ! k \<noteq> u \<Longrightarrow> g (db ! k) = db ! k"
      using distinct_ids_eq [OF assms(1) mem u] g_other by blast
    show "user_id (map g db ! k) = user_id (db ! k)
               \<and> email (map g db ! k) = email (db ! k)
               \<and> session_id (map g db ! k) = session_id (db ! k)
               \<and> (db ! k \<noteq> u \<longrightarrow> map g db ! k = db ! k)
               \<and> (db ! k = u \<longrightarrow>
                    map g db ! k = u\<lparr>hashed_password := h, reset_token := None\<rparr>)"
      using k other by (simp add: g_id g_email g_session g_u)
  qed
  have sess: "\<forall>sid v. get_user_from_session_id (Some sid) db = Inr (Some v) \<longrightarrow>
                 (\<exists>v'. get_user_from_session_id (Some sid) (map g db) = Inr (Some v')
                    \<and> user_id v' = user_id v \<and> email v' = email v
                    \<and> session_id v' = session_id v)"
  proof (intro allI impI)
    fix sid v
    assume a: "get_user_from_session_id (Some sid) db = Inr (Some v)"
    have keep: "\<And>w. matches (By_session_id sid) (g w) = matches (By_session_id sid) w"
      by (simp add: g_session)
    from a have "find_user_by (By_session_id sid) db = Inr v"
      by (rule get_user_from_session_id_Some)
    then have "find_user_by (By_session_id sid) (map g db) = Inr (g v)"
      using find_user_by_map [of "By_session_id sid" g db, OF keep] by simp
    then have "get_user_from_session_id (Some sid) (map g db) = Inr (Some (g v))"
      by (simp add: get_user_from_session_id_def)
    then have "get_user_from_session_id (Some sid) (map g db) = Inr (Some (g v))
                    \<and> user_id (g v) = user_id v \<and> email (g v) = email v
                    \<and> session_id (g v) = session_id v"
      by (simp add: g_id g_email g_session)
    then show "\<exists>v'. get_user_from_session_id (Some sid) (map g db) = Inr (Some v')
                    \<and> user_id v' = user_id v \<and> email v' = email v
                    \<and> session_id v' = session_id v"
      by (rule exI)
  qed
  have len: "length (map g db) = length db" by simp
  from run len rows sess
  have "update_password hashpw salt (Some t) (Some p) db = Inr (map g db)
           \<and> length (map g db) = length db
           \<and> (\<forall>k<length db.
                 user_id (map g db ! k) = user_id (db ! k)
               \<and> email (map g db ! k) = email (db ! k)
               \<and> session_id (map g db ! k) = session_id (db ! k)
               \<and> (db ! k \<noteq> u \<longrightarrow> map g db ! k = db ! k)
               \<and> (db ! k = u \<longrightarrow>
                    map g db ! k = u\<lparr>hashed_password := h, reset_token := None\<rparr>))
           \<and> (\<forall>sid v. get_user_from_session_id (Some sid) db = Inr (Some v) \<longrightarrow>
                 (\<exists>v'. get_user_from_session_id (Some sid) (map g db) = Inr (Some v')
                    \<and> user_id v' = user_id v \<and> email v' = email v
                    \<and> session_id v' = session_id v))"
    by (intro conjI)
  then show ?thesis unfolding h_def by (rule exI)
qed

theorem update_password_frame_witness:
  "update_password (\<lambda>p s. s @ p) ''salt'' (Some ''r1'') (Some ''pw'')
     [\<lparr>user_id = 1, email = ''a@x.com'', hashed_password = ''h1'',
       session_id = Some ''s1'', reset_token = Some ''r1''\<rparr>,
      \<lparr>user_id = 2, email = ''b@x.com'', hashed_password = ''h2'',
       session_id = Some ''s2'', reset_token = Some ''r2''\<rparr>]
   = Inr
     [\<lparr>user_id = 1, email = ''a@x.com'', hashed_password = ''saltpw'',
       session_id = Some ''s1'', reset_token = None\<rparr>,
      \<lparr>user_id = 2, email = ''b@x.com'', hashed_password = ''h2'',
       session_id = Some ''s2'', reset_token = Some ''r2''\<rparr>]"
  using update_password_frame
    [of "[\<lparr>user_id = 1, email = ''a@x.com'', hashed_password = ''h1'',
           session_id = Some ''s1'', reset_token = Some ''r1''\<rparr>,
          \<lparr>user_id = 2, email = ''b@x.com'', hashed_password = ''h2'',
           session_id = Some ''s2'', reset_token = Some ''r2''\<rparr>]"
        "''r1''"
        "\<lparr>user_id = 1, email = ''a@x.com'', hashed_password = ''h1'',
           session_id = Some ''s1'', reset_token = Some ''r1''\<rparr>"
        "\<lambda>p s. s @ p" "''salt''" "''pw''"]
  by (simp add: find_user_by_def update_password_def update_user_def hash_password_def)

text \<open>
  C4. In a table whose ids are distinct, for a registered email \<open>e\<close> and a token \<open>T\<close> that
  no stored session uses yet (the token \<^verbatim>\<open>uuid4\<close> draws is fresh), \<^verbatim>\<open>create_session\<close>
  returns \<open>T\<close>; in the store it leaves, \<^verbatim>\<open>get_user_from_session_id(T)\<close> returns the user
  that \<^verbatim>\<open>find_user_by(email=e)\<close> returns, the user registered under \<open>e\<close>; and after
  \<^verbatim>\<open>destroy_session\<close> of that user's id, \<^verbatim>\<open>get_user_from_session_id(T)\<close> returns
  \<^verbatim>\<open>None\<close>.
\<close>

theorem session_round_trip:
  assumes "distinct (map user_id db)"
      and "find_user_by (By_email e) db = Inr u"
      and "\<forall>v\<in>set db. session_id v \<noteq> Some T"
  shows "\<exists>db1 u1 db2.
           create_session T e db = Inr (Some T, db1)
         \<and> find_user_by (By_email e) db1 = Inr u1
         \<and> get_user_from_session_id (Some T) db1 = Inr (Some u1)
         \<and> user_id u1 = user_id u
         \<and> destroy_session (Some (user_id u1)) db1 = Inr db2
         \<and> get_user_from_session_id (Some T) db2 = Inr None"
proof -
  define r :: "user \<Rightarrow> user" where "r = (\<lambda>v. if user_id v = user_id u then v\<lparr>session_id := Some T\<rparr> else v)"
  define c :: "user \<Rightarrow> user" where "c = (\<lambda>v. if user_id v = user_id u then v\<lparr>session_id := None\<rparr> else v)"
  have r_id: "\<And>v. user_id (r v) = user_id v" and r_email: "\<And>v. email (r v) = email v"
    by (simp_all add: r_def)
  from assms(2) have u: "u \<in> set db" by (auto dest: find_user_by_some)
  have r_sess: "\<And>v. v \<in> set db \<Longrightarrow> (session_id (r v) = Some T) = (v = u)"
  proof -
    fix v assume v: "v \<in> set db"
    show "(session_id (r v) = Some T) = (v = u)"
    proof (cases "user_id v = user_id u")
      case True
      with distinct_ids_eq [OF assms(1) v u] show ?thesis by (simp add: r_def)
    next
      case False
      with assms(3) v show ?thesis by (auto simp: r_def)
    qed
  qed
  have s1: "create_session T e db = Inr (Some T, map r db)"
    using create_session_Inr [OF assms(2)] by (simp add: r_def)
  have keep: "\<And>w. matches (By_email e) (r w) = matches (By_email e) w"
    by (simp add: r_email)
  have s2: "find_user_by (By_email e) (map r db) = Inr (r u)"
    using find_user_by_map [of "By_email e" r db, OF keep] assms(2) by simp
  have "List.find (matches (By_session_id T)) (map r db) = Some (r u)"
  proof (rule find_unique)
    show "r u \<in> set (map r db)" using u by simp
    show "matches (By_session_id T) (r u)" using r_sess [OF u] by simp
    show "\<forall>y\<in>set (map r db). matches (By_session_id T) y \<longrightarrow> y = r u"
    proof (intro ballI impI)
      fix y assume "y \<in> set (map r db)" and m: "matches (By_session_id T) y"
      then obtain v where v: "v \<in> set db" and y: "y = r v" by auto
      with m r_sess [OF v] show "y = r u" by simp
    qed
  qed
  then have s3: "get_user_from_session_id (Some T) (map r db) = Inr (Some (r u))"
    by (simp add: get_user_from_session_id_def find_user_by_def)
  have s4: "destroy_session (Some (user_id (r u))) (map r db) = Inr (map c (map r db))"
    by (simp only: destroy_session_eq r_id c_def)
  have "\<forall>w\<in>set (map c (map r db)). \<not> matches (By_session_id T) w"
  proof
    fix w assume "w \<in> set (map c (map r db))"
    then obtain v where v: "v \<in> set db" and w: "w = c (r v)" by auto
    show "\<not> matches (By_session_id T) w"
    proof (cases "user_id v = user_id u")
      case True
      with w show ?thesis by (simp add: c_def r_def)
    next
      case False
      with w assms(3) v show ?thesis by (simp add: c_def r_def)
    qed
  qed
  then have "find_user_by (By_session_id T) (map c (map r db)) = Inl NoResultFound"
    by (simp only: find_user_by_none)
  then have s5: "get_user_from_session_id (Some T) (map c (map r db)) = Inr None"
    by (simp add: get_user_from_session_id_def)
  from s1 s2 s3 r_id [of u] s4 s5
  have "create_session T e db = Inr (Some T, map r db)
         \<and> find_user_by (By_email e) (map r db) = Inr (r u)
         \<and> get_user_from_session_id (Some T) (map r db) = Inr (Some (r u))
         \<and> user_id (r u) = user_id u
         \<and> destroy_session (Some (user_id (r u))) (map r db) = Inr (map c (map r db))
         \<and> get_user_from_session_id (Some T) (map c (map r db)) = Inr None"
    by (intro conjI)
  then show ?thesis by (intro exI)
qed

theorem session_round_trip_witness:
  "create_session ''s9'' ''b@x.com''
     [\<lparr>user_id = 1, email = ''a@x.com'', hashed_password = ''h1'',
       session_id = Some ''s1'', reset_token = None\<rparr>,
      \<lparr>user_id = 2, email = ''b@x.com'', hashed_password = ''h2'',
       session_id = None, reset_token = None\<rparr>]
   = Inr (Some ''s9'',
     [\<lparr>user_id = 1, email = ''a@x.com'', hashed_password = ''h1'',
       session_id = Some ''s1'', reset_token = None\<rparr>,
      \<lparr>user_id = 2, email = ''b@x.com'', hashed_password = ''h2'',
       session_id = Some ''s9'', reset_token = None\<rparr>])
   \<and> get_user_from_session_id (Some ''s9'')
     [\<lparr>user_id = 1, email = ''a@x.com'', hashed_password = ''h1'',
       session_id = Some ''s1'', reset_token = None\<rparr>,
      \<lparr>user_id = 2, email = ''b@x.com'', hashed_password = ''h2'',
       session_id = Some ''s9'', reset_token = None\<rparr>]
   = Inr (Some \<lparr>user_id = 2, email = ''b@x.com'', hashed_password = ''h2'',
       session_id = Some ''s9'', reset_token = None\<rparr>)"
  using session_round_trip
    [of "[\<lparr>user_id = 1, email = ''a@x.com'', hashed_password = ''h1'',
           session_id = Some ''s1'', reset_token = None\<rparr>,
          \<lparr>user_id = 2, email = ''b@x.com'', hashed_password = ''h2'',
           session_id = None, reset_token = None\<rparr>]"
        "''b@x.com''"
        "\<lparr>user_id = 2, email = ''b@x.com'', hashed_password = ''h2'',
           session_id = None, reset_token = None\<rparr>"
        "''s9''"]
  by (simp add: find_user_by_def create_session_def update_user_def
        get_user_from_session_id_def)

text \<open>
  C1. Let \<open>T\<close> be a token that no stored \<^verbatim>\<open>reset_token\<close> uses yet (the token
  \<^verbatim>\<open>uuid4\<close> draws is fresh) and let \<^verbatim>\<open>get_reset_password_token\<close> return it for the
  email \<open>e\<close>. Then \<^verbatim>\<open>update_password(T, p)\<close> succeeds, and it is one call of
  \<^verbatim>\<open>update_user\<close> that sets \<^verbatim>\<open>hashed_password\<close> and clears \<^verbatim>\<open>reset_token\<close>
  together; afterwards the user of \<open>e\<close> has the new hash and \<^verbatim>\<open>reset_token = None\<close>, no
  row holds \<open>T\<close>, and a second \<^verbatim>\<open>update_password\<close> with \<open>T\<close> raises \<^verbatim>\<open>ValueError\<close>
  (the specification's \<^verbatim>\<open>InvalidResetToken\<close>).
\<close>

theorem reset_token_single_use:
  assumes "\<forall>v\<in>set db. reset_token v \<noteq> Some T"
      and "get_reset_password_token T e db = Inr (tok, db1)"
  shows "tok = T
       \<and> (\<exists>u db2 u2.
             find_user_by (By_reset_token T) db1 = Inr u
           \<and> update_password hashpw salt (Some T) (Some p) db1 = Inr db2
           \<and> update_user (user_id u)
                [Set_hashed_password (hash_password hashpw salt p), Set_reset_token None] db1
              = Inr db2
           \<and> find_user_by (By_email e) db2 = Inr u2
           \<and> user_id u2 = user_id u
           \<and> reset_token u2 = None
           \<and> hashed_password u2 = hash_password hashpw salt p
           \<and> (\<forall>v\<in>set db2. reset_token v \<noteq> Some T)
           \<and> update_password hashpw salt' (Some T) (Some p') db2 = Inl (ValueError []))"
proof -
  define h where "h = hash_password hashpw salt p"
  from get_reset_password_token_Inr [OF assms(2)]
  obtain u0 where f0: "find_user_by (By_email e) db = Inr u0" and tok: "tok = T"
    and db1: "db1 = map (\<lambda>v. if user_id v = user_id u0
                               then v\<lparr>reset_token := Some T\<rparr> else v) db"
    by blast
  define r :: "user \<Rightarrow> user"
    where "r = (\<lambda>v. if user_id v = user_id u0 then v\<lparr>reset_token := Some T\<rparr> else v)"
  define c :: "user \<Rightarrow> user"
    where "c = (\<lambda>v. if user_id v = user_id u0
                    then fold set_field [Set_hashed_password h, Set_reset_token None] v else v)"
  have db1r: "db1 = map r db" using db1 by (simp add: r_def)
  from f0 have u0: "u0 \<in> set db" and u0e: "email u0 = e"
    by (auto dest: find_user_by_some)
  have r_id: "\<And>v. user_id (r v) = user_id v" and r_email: "\<And>v. email (r v) = email v"
    by (simp_all add: r_def)
  have c_id: "\<And>v. user_id (c v) = user_id v" and c_email: "\<And>v. email (c v) = email v"
    by (simp_all add: c_def)
  have holder: "\<And>v. v \<in> set db \<Longrightarrow> (reset_token (r v) = Some T) = (user_id v = user_id u0)"
    using assms(1) by (simp add: r_def)
  have "r u0 \<in> set db1" using u0 db1r by simp
  moreover have "matches (By_reset_token T) (r u0)" by (simp add: r_def)
  ultimately obtain u where fu: "find_user_by (By_reset_token T) db1 = Inr u"
    using find_user_by_ex' by blast
  then have "u \<in> set db1" and ut: "reset_token u = Some T"
    by (auto dest: find_user_by_some)
  then obtain v where v: "v \<in> set db" and uv: "u = r v" using db1r by auto
  with ut holder [OF v] have uid: "user_id u = user_id u0" by (simp add: r_id)
  have upd: "update_user (user_id u) [Set_hashed_password h, Set_reset_token None] db1
             = Inr (map c db1)"
    using update_user_member [OF \<open>u \<in> set db1\<close>] uid by (simp add: c_def)
  have run: "update_password hashpw salt (Some T) (Some p) db1 = Inr (map c db1)"
    using fu upd by (simp add: update_password_def h_def)
  have keep: "\<And>w. matches (By_email e) (c (r w)) = matches (By_email e) w"
    by (simp add: r_email c_email)
  have "find_user_by (By_email e) (map (\<lambda>w. c (r w)) db) = Inr (c (r u0))"
    using find_user_by_map [of "By_email e" "\<lambda>w. c (r w)" db, OF keep] f0 by simp
  then have fe: "find_user_by (By_email e) (map c db1) = Inr (c (r u0))"
    by (simp add: db1r comp_def)
  have u2: "user_id (c (r u0)) = user_id u \<and> reset_token (c (r u0)) = None
            \<and> hashed_password (c (r u0)) = h"
    by (simp add: uid c_def r_def)
  have gone: "\<forall>w\<in>set (map c db1). reset_token w \<noteq> Some T"
  proof
    fix w assume "w \<in> set (map c db1)"
    then obtain x where x: "x \<in> set db" and w: "w = c (r x)" using db1r by auto
    show "reset_token w \<noteq> Some T"
    proof (cases "user_id x = user_id u0")
      case True
      with w show ?thesis by (simp add: c_def r_def)
    next
      case False
      with w assms(1) x show ?thesis by (simp add: c_def r_def)
    qed
  qed
  then have "find_user_by (By_reset_token T) (map c db1) = Inl NoResultFound"
    by (simp only: find_user_by_none matches.simps)
  then have again: "update_password hashpw salt' (Some T) (Some p') (map c db1)
                    = Inl (ValueError [])"
    by (simp add: update_password_def)
  from fu run upd fe u2 gone again
  have "find_user_by (By_reset_token T) db1 = Inr u
           \<and> update_password hashpw salt (Some T) (Some p) db1 = Inr (map c db1)
           \<and> update_user (user_id u) [Set_hashed_password h, Set_reset_token None] db1
              = Inr (map c db1)
           \<and> find_user_by (By_email e) (map c db1) = Inr (c (r u0))
           \<and> user_id (c (r u0)) = user_id u
           \<and> reset_token (c (r u0)) = None
           \<and> hashed_password (c (r u0)) = h
           \<and> (\<forall>v\<in>set (map c db1). reset_token v \<noteq> Some T)
           \<and> update_password hashpw salt' (Some T) (Some p') (map c db1) = Inl (ValueError [])"
    by (intro conjI) simp_all
  then have "\<exists>u db2 u2.
             find_user_by (By_reset_token T) db1 = Inr u
           \<and> update_password hashpw salt (Some T) (Some p) db1 = Inr db2
           \<and> update_user (user_id u) [Set_hashed_password h, Set_reset_token None] db1
              = Inr db2
           \<and> find_user_by (By_email e) db2 = Inr u2
           \<and> user_id u2 = user_id u
           \<and> reset_token u2 = None
           \<and> hashed_password u2 = h
           \<and> (\<forall>v\<in>set db2. reset_token v \<noteq> Some T)
           \<and> update_password hashpw salt' (Some T) (Some p') db2 = Inl (ValueError [])"
    by (intro exI)
  with tok show ?thesis unfolding h_def by (intro conjI)
qed

theorem reset_token_single_use_witness:
  "get_reset_password_token ''r9'' ''a@x.com''
     [\<lparr>user_id = 1, email = ''a@x.com'', hashed_password = ''h1'',
       session_id = None, reset_token = None\<rparr>]
   = Inr (''r9'',
     [\<lparr>user_id = 1, email = ''a@x.com'', hashed_password = ''h1'',
       session_id = None, reset_token = Some ''r9''\<rparr>])
   \<and> update_password (\<lambda>p s. s @ p) ''salt'' (Some ''r9'') (Some ''pw'')
     [\<lparr>user_id = 1, email = ''a@x.com'', hashed_password = ''h1'',
       session_id = None, reset_token = Some ''r9''\<rparr>]
   = Inr [\<lparr>user_id = 1, email = ''a@x.com'', hashed_password = ''saltpw'',
       session_id = None, reset_token = None\<rparr>]
   \<and> update_password (\<lambda>p s. s @ p) ''salt'' (Some ''r9'') (Some ''pw2'')
     [\<lparr>user_id = 1, email = ''a@x.com'', hashed_password = ''saltpw'',
       session_id = None, reset_token = None\<rparr>]
   = Inl (ValueError [])"
  using reset_token_single_use
    [of "[\<lparr>user_id = 1, email = ''a@x.com'', hashed_password = ''h1'',
           session_id = None, reset_token = None\<rparr>]"
        "''r9''" "''a@x.com''" "''r9''"
        "[\<lparr>user_id = 1, email = ''a@x.com'', hashed_password = ''h1'',
           session_id = None, reset_token = Some ''r9''\<rparr>]"
        "\<lambda>p s. s @ p" "''salt''" "''pw''" "''salt''" "''pw2''"]
  by (simp add: find_user_by_def get_reset_password_token_def update_password_def
        update_user_def hash_password_def)






text \<open>
  C8. Let \<^verbatim>\<open>hashpw\<close> never return the empty string nor its own input (bcrypt returns
  60 bytes that start with the salt). Then after every sequence of calls from the empty
  store, the \<^verbatim>\<open>hashed_password\<close> of every stored user is not empty, is the output of
  \<^verbatim>\<open>hashpw\<close> on the password on record for the user (the one of the registration or of
  the latest \<^verbatim>\<open>update_password\<close>), and differs from that password.
\<close>

theorem hashed_password_stored:
  assumes "\<forall>p salt. hashpw p salt \<noteq> [] \<and> hashpw p salt \<noteq> p"
  shows "\<forall>u\<in>set (run hashpw cs []).
           hashed_password u \<noteq> []
         \<and> (\<exists>p salt. passwords_after hashpw cs [] Map.empty (email u) = Some p
               \<and> hashed_password u = hashpw p salt
               \<and> hashed_password u \<noteq> p)"
proof
  fix u assume u: "u \<in> set (run hashpw cs [])"
  have "consistent hashpw (run hashpw cs []) (passwords_after hashpw cs [] Map.empty)"
    by (rule consistent_run) (rule consistent_empty)
  with u obtain p salt where
    p: "passwords_after hashpw cs [] Map.empty (email u) = Some p"
       "hashed_password u = hashpw p salt"
    by (auto simp: consistent_def)
  from assms p(2) have "hashed_password u \<noteq> []" "hashed_password u \<noteq> p" by simp_all
  with p show "hashed_password u \<noteq> []
         \<and> (\<exists>p salt. passwords_after hashpw cs [] Map.empty (email u) = Some p
               \<and> hashed_password u = hashpw p salt
               \<and> hashed_password u \<noteq> p)"
    by blast
qed

theorem hashed_password_stored_witness:
  "run (\<lambda>p s. CHR ''$'' # s @ p)
     [Register_user ''a@x.com'' ''pw1'' ''s1'',
      Get_reset_password_token ''a@x.com'' ''r1'',
      Update_password (Some ''r1'') (Some ''newpw'') ''s3''] []
   = [\<lparr>user_id = 1, email = ''a@x.com'', hashed_password = ''$s3newpw'',
        session_id = None, reset_token = None\<rparr>]
   \<and> passwords_after (\<lambda>p s. CHR ''$'' # s @ p)
     [Register_user ''a@x.com'' ''pw1'' ''s1'',
      Get_reset_password_token ''a@x.com'' ''r1'',
      Update_password (Some ''r1'') (Some ''newpw'') ''s3''] [] Map.empty ''a@x.com''
   = Some ''newpw''"
proof -
  have "\<And>p salt::string. length (CHR ''$'' # salt @ p) \<noteq> length p" by simp
  then have "\<And>p salt::string. CHR ''$'' # salt @ p \<noteq> p" by metis
  then have shape: "\<forall>p salt. (\<lambda>p s. CHR ''$'' # s @ p) p salt \<noteq> []
                      \<and> (\<lambda>p s. CHR ''$'' # s @ p) p salt \<noteq> p"
    by simp
  show ?thesis
    using hashed_password_stored
      [OF shape, of "[Register_user ''a@x.com'' ''pw1'' ''s1'',
          Get_reset_password_token ''a@x.com'' ''r1'',
          Update_password (Some ''r1'') (Some ''newpw'') ''s3'']"]
    by (simp add: store_after_def note_password_def register_user_def find_user_by_def
          add_user_def next_id_def hash_password_def get_reset_password_token_def
          update_password_def update_user_def Let_def)
qed




end
